theory Spec2Isabelle
  imports Main
begin

section \<open>Python strings\<close>

text \<open>
  A Python \<open>str\<close> is modelled as a \<open>string\<close>; the characters of the model are the
  code points below 256. \<open>isspace\<close> is \<open>str.isspace\<close> on one such character, which is
  also what the regular-expression class \<open>\s\<close> matches in a \<open>str\<close> pattern: TAB, LF,
  VT, FF, CR, the four separators 0x1C..0x1F, the blank, NEL (0x85) and the no-break
  space (0xA0).
\<close>

definition isspace :: "char \<Rightarrow> bool" where
  "isspace c =
     (c = CHR 0x09 \<or> c = CHR 0x0A \<or> c = CHR 0x0B \<or> c = CHR 0x0C \<or> c = CHR 0x0D \<or>
      c = CHR 0x1C \<or> c = CHR 0x1D \<or> c = CHR 0x1E \<or> c = CHR 0x1F \<or> c = CHR 0x20 \<or>
      c = CHR 0x85 \<or> c = CHR 0xA0)"

text \<open>\<open>s.strip()\<close>: leading and trailing whitespace removed.\<close>

definition strip :: "string \<Rightarrow> string" where
  "strip s = rev (dropWhile isspace (rev (dropWhile isspace s)))"

text \<open>\<open>sep.join(parts)\<close>.\<close>

fun join :: "string \<Rightarrow> string list \<Rightarrow> string" where
  "join sep [] = []"
| "join sep [x] = x"
| "join sep (x # y # ys) = x @ sep @ join sep (y # ys)"

text \<open>\<open>str(n)\<close> of a natural number, as an f-string renders \<open>{i+1}\<close>.\<close>

definition digit_char :: "nat \<Rightarrow> char" where
  "digit_char d = char_of (48 + d)"

function str_nat :: "nat \<Rightarrow> string" where
  "str_nat n = (if n < 10 then [digit_char n] else str_nat (n div 10) @ [digit_char (n mod 10)])"
  by pat_completeness auto
termination
  by (relation "measure (\<lambda>n. n)") auto

declare str_nat.simps [simp del]

text \<open>
  A raised Python exception, carrying \<open>str(e)\<close>. Only subclasses of \<open>Exception\<close> are
  modelled.
\<close>

datatype exn = Exception string

section \<open>tools/web\_search\_tool.py\<close>

text \<open>
  One search result is a dict from field names to strings. The provider
  (\<open>DDGS().text(keywords, max_results)\<close>) is outside the repository: it is a parameter
  that, from a state of the outside world, either raises or returns the list of results,
  and leaves the world in a new state.
\<close>

type_synonym result = "string \<rightharpoonup> string"

type_synonym 'w ddgs = "'w \<Rightarrow> string \<Rightarrow> nat \<Rightarrow> (exn + result list) \<times> 'w"

text \<open>\<open>d.get(k, default)\<close>.\<close>

definition dict_get :: "result \<Rightarrow> string \<Rightarrow> string \<Rightarrow> string" where
  "dict_get d k dflt = (case d k of None \<Rightarrow> dflt | Some v \<Rightarrow> v)"

text \<open>The f-string appended for the result enumerated at index \<open>i\<close>.\<close>

definition result_entry :: "nat \<Rightarrow> result \<Rightarrow> string" where
  "result_entry i r =
     ''Result '' @ str_nat (i + 1) @ '':\<newline>'' @
     ''Title: '' @ dict_get r ''title'' ''N/A'' @ ''\<newline>'' @
     ''Snippet: '' @ dict_get r ''body'' ''N/A'' @ ''\<newline>'' @
     ''URL: '' @ dict_get r ''href'' ''N/A'' @ ''\<newline>''"

text \<open>
  The loop \<open>for i, result in enumerate(search_results): results_output.append(...)\<close>,
  with the index and the output list as loop state.
\<close>

fun append_results :: "nat \<Rightarrow> result list \<Rightarrow> string list \<Rightarrow> string list" where
  "append_results i [] results_output = results_output"
| "append_results i (r # rs) results_output =
     append_results (i + 1) rs (results_output @ [result_entry i r])"

text \<open>The body of the \<open>try\<close> block: what it returns, or the exception it raises.\<close>

definition search_web_try :: "'w ddgs \<Rightarrow> 'w \<Rightarrow> string \<Rightarrow> nat \<Rightarrow> (exn + string) \<times> 'w" where
  "search_web_try ddgs w query num_results =
     (case ddgs w query num_results of
        (Inl e, w') \<Rightarrow> (Inl e, w')
      | (Inr search_results, w') \<Rightarrow>
          (if search_results \<noteq> [] then
             (let results_output = append_results 0 search_results [] in
              if results_output = [] then (Inr ''No results found for your query.'', w')
              else (Inr (join ''\<newline>'' results_output), w'))
           else (Inr ''No results found for your query.'', w')))"

text \<open>\<open>search_web\<close>: the \<open>try\<close> block under its handler \<open>except Exception as e\<close>.\<close>

definition search_web :: "'w ddgs \<Rightarrow> 'w \<Rightarrow> string \<Rightarrow> nat \<Rightarrow> (exn + string) \<times> 'w" where
  "search_web ddgs w query num_results =
     (case search_web_try ddgs w query num_results of
        (Inl (Exception msg), w') \<Rightarrow> (Inr (''An error occurred during the web search: '' @ msg), w')
      | (Inr s, w') \<Rightarrow> (Inr s, w'))"

section \<open>agent/agents/basic\_memory\_agent.py: data\<close>

text \<open>
  The content of a message is a string, or (for a user message with images) a list of
  content items: \<open>{"type": "text", "text": t}\<close> and
  \<open>{"type": "image_url", "image_url": {"url": u, "detail": "auto"}}\<close>.
\<close>

datatype content_item = TextItem string | ImageUrlItem string

datatype content = Str string | Items "content_item list"

text \<open>A message dict: \<open>role\<close> and \<open>content\<close>, and the optional keys \<open>name\<close>, \<open>avatar\<close>.\<close>

record message =
  role :: string
  content :: content
  name :: "string option"
  avatar :: "string option"

definition msg :: "string \<Rightarrow> content \<Rightarrow> message" where
  "msg r c = \<lparr>role = r, content = c, name = None, avatar = None\<rparr>"

text \<open>\<open>DisplayText\<close>, as far as \<open>_add_message\<close> reads it.\<close>

record display_text =
  dt_name :: "string option"
  dt_avatar :: "string option"

text \<open>
  \<open>BatchInput\<close> with its \<open>TextData\<close> (source, content) and \<open>ImageData\<close> (source, data).
  The sources are the members of \<open>TextSource\<close> and \<open>ImageSource\<close> that the agent names.
\<close>

datatype text_source = TextSource_INPUT | TextSource_CLIPBOARD

datatype image_source =
  ImageSource_CAMERA | ImageSource_SCREEN | ImageSource_CLIPBOARD | ImageSource_UPLOAD

datatype text_data = TextData text_source string

datatype image_data = ImageData image_source string

record batch_input =
  texts :: "text_data list"
  images :: "image_data list"

text \<open>One record of the persisted history, as \<open>get_history\<close> returns it.\<close>

record history_message =
  hist_role :: string
  hist_content :: string

text \<open>
  The fields of \<open>BasicMemoryAgent\<close> that the chat loop and the memory operations read or
  write. The remaining ones only parameterise the output pipeline around the generator.
\<close>

record agent =
  memory :: "message list"
  system :: string
  interrupt_method :: string
  enable_web_search :: bool
  interrupt_handled :: bool

text \<open>
  The model call \<open>chat_func(messages, system)\<close>, drained: from a state of the outside
  world it raises (at the call or while its stream is read, which the loop does not tell
  apart), or returns the finite list of tokens of its stream.
\<close>

type_synonym 'w chat_func = "'w \<Rightarrow> message list \<Rightarrow> string \<Rightarrow> (exn + string list) \<times> 'w"

text \<open>The calls a turn makes to its two collaborators, in the order they are made.\<close>

datatype event =
  LLMCall "message list" string "exn + string list"
| SearchCall string nat

fun is_search :: "event \<Rightarrow> bool" where
  "is_search (SearchCall q n) = True"
| "is_search (LLMCall ms s r) = False"

text \<open>
  What one run of the generator \<open>chat_with_memory\<close> leaves behind once it is consumed
  to its end: the exception it raised (if any), the tokens it yielded, the agent, the
  outside world, and the calls it made.
\<close>

record 'w turn =
  raised :: "exn option"
  yielded :: "string list"
  agent_after :: agent
  world_after :: 'w
  calls :: "event list"

section \<open>agent/agents/basic\_memory\_agent.py: memory operations\<close>

definition class_system :: string where
  "class_system =
     ''You are an error message repeater. \<newline>'' @
     ''        Your job is repeating this error message: \<newline>'' @
     ''        '' @ [CHR 0x27] @ ''No system prompt set. Please set a system prompt'' @ [CHR 0x27] @ ''. \<newline>'' @
     ''        Don'' @ [CHR 0x27] @ ''t say anything else.\<newline>'' @
     ''        ''"

definition set_system :: "string \<Rightarrow> agent \<Rightarrow> agent" where
  "set_system sys self =
     (let sys1 =
        (if interrupt_method self = ''user''
         then sys @ ''\<newline>\<newline>If you received `[interrupted by user]` signal, you were interrupted.''
         else sys)
      in self\<lparr>system := sys1\<rparr>)"

text \<open>\<open>__init__\<close>: the fields are assigned, then \<open>set_system\<close> is called.\<close>

definition init :: "string \<Rightarrow> string \<Rightarrow> bool \<Rightarrow> agent" where
  "init sys interrupt_method' enable_web_search' =
     set_system sys
       \<lparr>memory = [], system = class_system, interrupt_method = interrupt_method',
        enable_web_search = enable_web_search', interrupt_handled = False\<rparr>"

text \<open>The text kept of a structured content: its text items, concatenated in order.\<close>

definition text_content_of :: "content \<Rightarrow> string" where
  "text_content_of message =
     (case message of
        Items items \<Rightarrow>
          foldl (\<lambda>text_content item.
                   case item of TextItem t \<Rightarrow> text_content @ t | ImageUrlItem u \<Rightarrow> text_content)
                [] items
      | Str s \<Rightarrow> s)"

definition truthy :: "string option \<Rightarrow> string option" where
  "truthy v = (case v of Some s \<Rightarrow> (if s \<noteq> [] then Some s else None) | None \<Rightarrow> None)"

definition add_message :: "content \<Rightarrow> string \<Rightarrow> display_text option \<Rightarrow> agent \<Rightarrow> agent" where
  "add_message message role' display self =
     (let message_data = msg role' (Str (text_content_of message));
          message_data1 =
            (case display of
               Some d \<Rightarrow> message_data\<lparr>name := truthy (dt_name d), avatar := truthy (dt_avatar d)\<rparr>
             | None \<Rightarrow> message_data)
      in self\<lparr>memory := memory self @ [message_data1]\<rparr>)"

definition history_entry :: "history_message \<Rightarrow> message" where
  "history_entry m =
     msg (if hist_role m = ''human'' then ''user'' else ''assistant'') (Str (hist_content m))"

text \<open>
  \<open>set_memory_from_history\<close>; \<open>messages\<close> is what \<open>get_history(conf_uid, history_uid)\<close>
  returned.
\<close>

definition set_memory_from_history :: "history_message list \<Rightarrow> agent \<Rightarrow> agent" where
  "set_memory_from_history messages self =
     (let self1 = self\<lparr>memory := []\<rparr>;
          self2 = self1\<lparr>memory := memory self1 @ [msg ''system'' (Str (system self1))]\<rparr>
      in foldl (\<lambda>s m. s\<lparr>memory := memory s @ [history_entry m]\<rparr>) self2 messages)"

definition handle_interrupt :: "string \<Rightarrow> agent \<Rightarrow> agent" where
  "handle_interrupt heard_response self =
     (if interrupt_handled self then self
      else
        (let self1 = self\<lparr>interrupt_handled := True\<rparr>;
             mem = memory self1;
             mem1 =
               (if mem \<noteq> [] \<and> role (last mem) = ''assistant''
                then butlast mem @ [(last mem)\<lparr>content := Str (heard_response @ ''...'')\<rparr>]
                else if heard_response \<noteq> []
                  then mem @ [msg ''assistant'' (Str (heard_response @ ''...''))]
                  else mem)
         in self1\<lparr>memory :=
              mem1 @ [msg (if interrupt_method self1 = ''system'' then ''system'' else ''user'')
                          (Str ''[Interrupted by user]'')]\<rparr>))"

definition reset_interrupt :: "agent \<Rightarrow> agent" where
  "reset_interrupt self = self\<lparr>interrupt_handled := False\<rparr>"

section \<open>agent/agents/basic\_memory\_agent.py: building the turn's messages\<close>

definition text_part :: "text_data \<Rightarrow> string list" where
  "text_part text_data =
     (case text_data of
        TextData TextSource_INPUT c \<Rightarrow> [c]
      | TextData TextSource_CLIPBOARD c \<Rightarrow> [''[Clipboard content: '' @ c @ '']''])"

definition source_desc :: "image_source \<Rightarrow> string" where
  "source_desc src =
     (case src of
        ImageSource_CAMERA \<Rightarrow> ''captured from camera''
      | ImageSource_SCREEN \<Rightarrow> ''screenshot''
      | ImageSource_CLIPBOARD \<Rightarrow> ''from clipboard''
      | ImageSource_UPLOAD \<Rightarrow> ''uploaded'')"

text \<open>The loop \<open>for i, img_data in enumerate(input_data.images, 1)\<close>.\<close>

fun image_parts :: "nat \<Rightarrow> image_data list \<Rightarrow> string list \<Rightarrow> string list" where
  "image_parts i [] message_parts = message_parts"
| "image_parts i (ImageData src d # imgs) message_parts =
     image_parts (i + 1) imgs
       (message_parts @ [''- Image '' @ str_nat i @ '' ('' @ source_desc src @ '')''])"

definition to_text_prompt :: "batch_input \<Rightarrow> string" where
  "to_text_prompt input_data =
     (let message_parts = foldl (\<lambda>parts t. parts @ text_part t) [] (texts input_data);
          message_parts1 =
            (if images input_data \<noteq> []
             then image_parts 1 (images input_data)
                    (message_parts @ [''\<newline>Images in this message:''])
             else message_parts)
      in join ''\<newline>'' message_parts1)"

definition image_item :: "image_data \<Rightarrow> content_item" where
  "image_item img_data = (case img_data of ImageData src d \<Rightarrow> ImageUrlItem d)"

definition user_message :: "batch_input \<Rightarrow> message" where
  "user_message input_data =
     (if images input_data \<noteq> []
      then msg ''user''
             (Items (TextItem (to_text_prompt input_data) # map image_item (images input_data)))
      else msg ''user'' (Str (to_text_prompt input_data)))"

text \<open>
  \<open>_to_messages\<close>: the list for the model is a copy of the memory with the user message
  appended; the memory itself gets the user message through \<open>_add_message\<close>.
\<close>

definition to_messages :: "batch_input \<Rightarrow> agent \<Rightarrow> message list \<times> agent" where
  "to_messages input_data self =
     (let messages = memory self;
          messages1 = messages @ [user_message input_data]
      in (messages1, add_message (content (user_message input_data)) ''user'' None self))"

section \<open>The search directive\<close>

text \<open>
  \<open>re.search(r"\[SEARCH:\s*(.*?)\]", s)\<close>, by the backtracking it does. Each function
  returns group 1 of the match it finds, or \<open>None\<close>.

  \<open>lazy_dot_close\<close> is \<open>(.*?)\]\<close> at the head of the string: the closing bracket is
  tried first, and only then one more character, which must not be a line feed.
\<close>

fun lazy_dot_close :: "string \<Rightarrow> string option" where
  "lazy_dot_close [] = None"
| "lazy_dot_close (c # cs) =
     (if c = CHR '']'' then Some []
      else if c = CHR 0x0A then None
      else map_option ((#) c) (lazy_dot_close cs))"

text \<open>
  \<open>greedy_space\<close> is \<open>\s*(.*?)\]\<close>: the longest run of whitespace is tried first, and
  one character is given back at a time when the rest fails to match.
\<close>

fun greedy_space :: "string \<Rightarrow> string option" where
  "greedy_space [] = lazy_dot_close []"
| "greedy_space (c # cs) =
     (if isspace c
      then (case greedy_space cs of Some g \<Rightarrow> Some g | None \<Rightarrow> lazy_dot_close (c # cs))
      else lazy_dot_close (c # cs))"

definition match_at :: "string \<Rightarrow> string option" where
  "match_at s = (if take 8 s = ''[SEARCH:'' then greedy_space (drop 8 s) else None)"

text \<open>The search tries every start position from the left.\<close>

fun re_search :: "string \<Rightarrow> string option" where
  "re_search [] = match_at []"
| "re_search (c # cs) = (case match_at (c # cs) of Some g \<Rightarrow> Some g | None \<Rightarrow> re_search cs)"

section \<open>agent/agents/basic\_memory\_agent.py: the chat loop\<close>

definition MAX_SEARCH_ITERATIONS :: nat where
  "MAX_SEARCH_ITERATIONS = 2"

definition search_context_message :: "string \<Rightarrow> string \<Rightarrow> string" where
  "search_context_message search_query search_results_str =
     ''Web search for query '' @ [CHR 0x27] @ search_query @ [CHR 0x27] @
       '' yielded the following results:\<newline>'' @
     search_results_str @ ''\<newline>'' @
     ''Please use these results to answer the user'' @ [CHR 0x27] @ ''s request.''"

text \<open>
  The \<open>while\<close> loop of \<open>chat_with_memory\<close>. Its state is the counter, the local
  \<open>complete_response\<close> (\<open>None\<close> while unbound), the list \<open>messages\<close>, the outside world and
  the calls made so far. It ends by raising, or with the tokens yielded and the last
  value of \<open>complete_response\<close>.
\<close>

function search_loop ::
  "'w chat_func \<Rightarrow> 'w ddgs \<Rightarrow> agent \<Rightarrow> nat \<Rightarrow> string option \<Rightarrow> message list \<Rightarrow> 'w \<Rightarrow> event list
   \<Rightarrow> (exn + string list \<times> string option) \<times> 'w \<times> event list" where
  "search_loop chat_func ddgs self current_search_iteration complete_response messages w tr =
     (if current_search_iteration < MAX_SEARCH_ITERATIONS then
        (case chat_func w messages (system self) of
           (Inl e, w1) \<Rightarrow> (Inl e, w1, tr @ [LLMCall messages (system self) (Inl e)])
         | (Inr tokens, w1) \<Rightarrow>
             (let raw_llm_output_for_search_check = foldl (@) [] tokens;
                  tr1 = tr @ [LLMCall messages (system self) (Inr tokens)];
                  search_match =
                    (if enable_web_search self then re_search raw_llm_output_for_search_check
                     else None)
              in case search_match of
                   Some group1 \<Rightarrow>
                     (let search_query = strip group1 in
                      case search_web ddgs w1 search_query 3 of
                        (Inl e, w2) \<Rightarrow> (Inl e, w2, tr1 @ [SearchCall search_query 3])
                      | (Inr search_results_str, w2) \<Rightarrow>
                          search_loop chat_func ddgs self (current_search_iteration + 1) (Some [])
                            (messages @
                               [msg ''assistant'' (Str raw_llm_output_for_search_check),
                                msg ''user''
                                  (Str (search_context_message search_query search_results_str))])
                            w2 (tr1 @ [SearchCall search_query 3]))
                 | None \<Rightarrow>
                     (Inr (map (\<lambda>char_token. [char_token]) raw_llm_output_for_search_check,
                           Some raw_llm_output_for_search_check),
                      w1, tr1)))
      else (Inr ([], complete_response), w, tr))"
  by pat_completeness auto
termination
  by (relation "measure (\<lambda>(chat_func, ddgs, self, i, cr, messages, w, tr).
                           MAX_SEARCH_ITERATIONS - i)") auto

declare search_loop.simps [simp del]

text \<open>
  \<open>chat_with_memory\<close>, consumed to its end: \<open>_to_messages\<close>, the loop, and after the loop
  \<open>self._add_message(complete_response, "assistant")\<close>. An exception of the loop leaves
  the generator before that last statement.
\<close>

definition chat_with_memory :: "'w chat_func \<Rightarrow> 'w ddgs \<Rightarrow> batch_input \<Rightarrow> agent \<Rightarrow> 'w \<Rightarrow> 'w turn" where
  "chat_with_memory chat_func ddgs input_data self w =
     (case to_messages input_data self of
        (messages, self1) \<Rightarrow>
          (case search_loop chat_func ddgs self1 0 None messages w [] of
             (Inl e, w', tr) \<Rightarrow>
               \<lparr>raised = Some e, yielded = [], agent_after = self1, world_after = w', calls = tr\<rparr>
           | (Inr (ys, None), w', tr) \<Rightarrow>
               \<lparr>raised = Some (Exception ''UnboundLocalError: complete_response''),
                yielded = ys, agent_after = self1, world_after = w', calls = tr\<rparr>
           | (Inr (ys, Some complete_response), w', tr) \<Rightarrow>
               \<lparr>raised = None, yielded = ys,
                agent_after = add_message (Str complete_response) ''assistant'' None self1,
                world_after = w', calls = tr\<rparr>))"

section \<open>Fixtures of tests/agent/agents/test\_basic\_memory\_agent.py\<close>

text \<open>
  The test helpers, for evaluating the model on the inputs of the test-suite:
  a \<open>BatchInput\<close> with one typed text; a model that streams a fixed response one character
  at a time; a model whose first call streams one response and whose second call streams
  another (the outside world is the number of calls made so far); a model whose second
  call raises; a model that raises at every call; and a search provider that returns a
  fixed list of results.
\<close>

definition text_input :: "string \<Rightarrow> batch_input" where
  "text_input t = \<lparr>texts = [TextData TextSource_INPUT t], images = []\<rparr>"

definition streams :: "string \<Rightarrow> 'w chat_func" where
  "streams response w messages system_prompt = (Inr (map (\<lambda>c. [c]) response), w)"

definition two_step :: "string \<Rightarrow> string \<Rightarrow> nat chat_func" where
  "two_step first final llm_call_count messages system_prompt =
     (Inr (map (\<lambda>c. [c])
             (if llm_call_count = 0 then first
              else if llm_call_count = 1 then final
              else ''Unexpected LLM call'')),
      llm_call_count + 1)"

definition search_then_fail :: "string \<Rightarrow> string \<Rightarrow> nat chat_func" where
  "search_then_fail first err llm_call_count messages system_prompt =
     (if llm_call_count = 0 then Inr (map (\<lambda>c. [c]) first) else Inl (Exception err),
      llm_call_count + 1)"

definition fails :: "string \<Rightarrow> 'w chat_func" where
  "fails err w messages system_prompt = (Inl (Exception err), w)"

definition provider_returns :: "result list \<Rightarrow> 'w ddgs" where
  "provider_returns rs w keywords max_results = (Inr rs, w)"

section \<open>Auxiliary facts\<close>

lemma append_results_map:
  "append_results i rs out = out @ map (\<lambda>(k, r). result_entry k r) (zip [i..<i + length rs] rs)"
proof (induction rs arbitrary: i out)
  case Nil
  then show ?case by simp
next
  case (Cons r rs)
  have "[i..<i + length (r # rs)] = i # [i + 1..<(i + 1) + length rs]"
    by (subst upt_rec) simp
  then show ?case using Cons.IH [of "i + 1" "out @ [result_entry i r]"]
    by simp
qed

lemma foldl_append_concat: "foldl (@) acc xs = acc @ concat xs"
  by (induction xs arbitrary: acc) simp_all

lemma search_web_try_cases:
  "search_web_try ddgs w q n =
     (case ddgs w q n of
        (Inl e, w') \<Rightarrow> (Inl e, w')
      | (Inr rs, w') \<Rightarrow>
          (if rs = [] then (Inr ''No results found for your query.'', w')
           else (Inr (join ''\<newline>'' (map (\<lambda>(k, r). result_entry k r) (zip [0..<length rs] rs))), w')))"
  by (auto simp: search_web_try_def append_results_map Let_def split: prod.splits sum.splits)

lemma search_web_returns: "\<exists>s. search_web ddgs w q n = (Inr s, snd (ddgs w q n))"
  by (auto simp: search_web_def search_web_try_cases split: prod.splits sum.splits exn.splits)

lemma search_web_not_raised: "search_web ddgs w q n \<noteq> (Inl e, w')"
  using search_web_returns [of ddgs w q n] by auto

lemma search_web_world: "search_web ddgs w q n = (r, w') \<Longrightarrow> w' = snd (ddgs w q n)"
  using search_web_returns [of ddgs w q n] by auto

lemma image_items_no_text:
  "foldl (\<lambda>text_content item.
            case item of TextItem t \<Rightarrow> text_content @ t | ImageUrlItem u \<Rightarrow> text_content)
     acc (map image_item imgs) = acc"
  by (induction imgs arbitrary: acc) (auto simp: image_item_def split: image_data.splits)

lemma text_content_user_message:
  "text_content_of (content (user_message input_data)) = to_text_prompt input_data"
  by (simp add: user_message_def text_content_of_def msg_def image_items_no_text)

lemma to_messages_eq:
  "to_messages input_data self =
     (memory self @ [user_message input_data],
      self\<lparr>memory := memory self @ [msg ''user'' (Str (to_text_prompt input_data))]\<rparr>)"
  by (simp add: to_messages_def add_message_def text_content_user_message Let_def)

lemma search_loop_done:
  "search_loop cf dd self 2 cr ms w tr = (Inr ([], cr), w, tr)"
  by (simp add: search_loop.simps MAX_SEARCH_ITERATIONS_def)

lemma search_loop_second:
  "search_loop cf dd self (Suc 0) cr ms w tr =
     (case cf w ms (system self) of
        (Inl e, w1) \<Rightarrow> (Inl e, w1, tr @ [LLMCall ms (system self) (Inl e)])
      | (Inr toks, w1) \<Rightarrow>
          (case (if enable_web_search self then re_search (concat toks) else None) of
             None \<Rightarrow>
               (Inr (map (\<lambda>c. [c]) (concat toks), Some (concat toks)), w1,
                tr @ [LLMCall ms (system self) (Inr toks)])
           | Some g \<Rightarrow>
               (Inr ([], Some []), snd (dd w1 (strip g) 3),
                tr @ [LLMCall ms (system self) (Inr toks), SearchCall (strip g) 3])))"
proof -
  have two: "Suc 0 + 1 = 2" by simp
  show ?thesis
    apply (subst search_loop.simps)
    apply (simp only: two search_loop_done)
    apply (auto simp: MAX_SEARCH_ITERATIONS_def foldl_append_concat Let_def search_web_not_raised
        dest: search_web_world split: prod.splits sum.splits option.splits)
    done
qed

lemma search_loop_first:
  "search_loop cf dd self 0 cr ms w [] =
     (case cf w ms (system self) of
        (Inl e, w1) \<Rightarrow> (Inl e, w1, [LLMCall ms (system self) (Inl e)])
      | (Inr toks, w1) \<Rightarrow>
          (case (if enable_web_search self then re_search (concat toks) else None) of
             None \<Rightarrow>
               (Inr (map (\<lambda>c. [c]) (concat toks), Some (concat toks)), w1,
                [LLMCall ms (system self) (Inr toks)])
           | Some g \<Rightarrow>
               search_loop cf dd self (Suc 0) (Some [])
                 (ms @ [msg ''assistant'' (Str (concat toks)),
                        msg ''user''
                          (Str (search_context_message (strip g)
                                  (projr (fst (search_web dd w1 (strip g) 3)))))])
                 (snd (dd w1 (strip g) 3))
                 [LLMCall ms (system self) (Inr toks), SearchCall (strip g) 3]))"
  apply (subst search_loop.simps)
  apply (auto simp: MAX_SEARCH_ITERATIONS_def foldl_append_concat Let_def search_web_not_raised
      dest: search_web_world split: prod.splits sum.splits option.splits)
  done

lemma chat_with_memory_unrolled:
  "chat_with_memory cf dd inp self w =
     (let ms0 = memory self @ [user_message inp];
          self1 = self\<lparr>memory := memory self @ [msg ''user'' (Str (to_text_prompt inp))]\<rparr>;
          sys = system self
      in case cf w ms0 sys of
           (Inl e, w1) \<Rightarrow>
             \<lparr>raised = Some e, yielded = [], agent_after = self1, world_after = w1,
              calls = [LLMCall ms0 sys (Inl e)]\<rparr>
         | (Inr toks1, w1) \<Rightarrow>
             (case (if enable_web_search self then re_search (concat toks1) else None) of
                None \<Rightarrow>
                  \<lparr>raised = None, yielded = map (\<lambda>c. [c]) (concat toks1),
                   agent_after =
                     self1\<lparr>memory := memory self1 @ [msg ''assistant'' (Str (concat toks1))]\<rparr>,
                   world_after = w1, calls = [LLMCall ms0 sys (Inr toks1)]\<rparr>
              | Some g1 \<Rightarrow>
                  (let q1 = strip g1;
                       res1 = projr (fst (search_web dd w1 q1 3));
                       w2 = snd (dd w1 q1 3);
                       ms1 = ms0 @ [msg ''assistant'' (Str (concat toks1)),
                                    msg ''user'' (Str (search_context_message q1 res1))];
                       tr1 = [LLMCall ms0 sys (Inr toks1), SearchCall q1 3]
                   in case cf w2 ms1 sys of
                        (Inl e, w3) \<Rightarrow>
                          \<lparr>raised = Some e, yielded = [], agent_after = self1,
                           world_after = w3, calls = tr1 @ [LLMCall ms1 sys (Inl e)]\<rparr>
                      | (Inr toks2, w3) \<Rightarrow>
                          (case (if enable_web_search self then re_search (concat toks2)
                                 else None) of
                             None \<Rightarrow>
                               \<lparr>raised = None, yielded = map (\<lambda>c. [c]) (concat toks2),
                                agent_after =
                                  self1\<lparr>memory :=
                                    memory self1 @ [msg ''assistant'' (Str (concat toks2))]\<rparr>,
                                world_after = w3,
                                calls = tr1 @ [LLMCall ms1 sys (Inr toks2)]\<rparr>
                           | Some g2 \<Rightarrow>
                               \<lparr>raised = None, yielded = [],
                                agent_after =
                                  self1\<lparr>memory := memory self1 @ [msg ''assistant'' (Str [])]\<rparr>,
                                world_after = snd (dd w3 (strip g2) 3),
                                calls = tr1 @ [LLMCall ms1 sys (Inr toks2),
                                               SearchCall (strip g2) 3]\<rparr>))))"
  unfolding chat_with_memory_def to_messages_eq
  apply (simp only: prod.case)
  apply (simp only: search_loop_first)
  apply (simp add: search_loop_second add_message_def text_content_of_def Let_def
      split: prod.splits sum.splits option.splits)
  done

lemma foldl_history:
  "foldl (\<lambda>s m. s\<lparr>memory := memory s @ [f m]\<rparr>) a ms = a\<lparr>memory := memory a @ map f ms\<rparr>"
  by (induction ms arbitrary: a) simp_all

lemma lazy_dot_close_Some:
  "lazy_dot_close s = Some g \<Longrightarrow> \<exists>post. s = g @ CHR '']'' # post \<and> CHR '']'' \<notin> set g"
proof (induction s arbitrary: g)
  case Nil
  then show ?case by simp
next
  case (Cons c cs)
  show ?case
  proof (cases "c = CHR '']''")
    case True
    with Cons.prems show ?thesis by simp
  next
    case False
    with Cons.prems obtain g' where g': "lazy_dot_close cs = Some g'" "g = c # g'"
      by (auto split: if_splits)
    from Cons.IH [OF g'(1)] obtain post where "cs = g' @ CHR '']'' # post" "CHR '']'' \<notin> set g'"
      by blast
    with False g'(2) show ?thesis by simp
  qed
qed

lemma greedy_space_Some:
  "greedy_space s = Some g \<Longrightarrow>
     \<exists>ws post. s = ws @ g @ CHR '']'' # post \<and> list_all isspace ws \<and> CHR '']'' \<notin> set g"
proof (induction s arbitrary: g)
  case Nil
  then show ?case by simp
next
  case (Cons c cs)
  have direct: "\<exists>ws post. c # cs = ws @ g @ CHR '']'' # post \<and> list_all isspace ws \<and> CHR '']'' \<notin> set g"
    if "lazy_dot_close (c # cs) = Some g"
  proof -
    from lazy_dot_close_Some [OF that] obtain post where
      "c # cs = g @ CHR '']'' # post" "CHR '']'' \<notin> set g" by blast
    then have "c # cs = [] @ g @ CHR '']'' # post \<and> list_all isspace [] \<and> CHR '']'' \<notin> set g"
      by simp
    then show ?thesis by blast
  qed
  show ?case
  proof (cases "isspace c")
    case False
    with Cons.prems direct show ?thesis by simp
  next
    case True
    show ?thesis
    proof (cases "greedy_space cs")
      case None
      with True Cons.prems direct show ?thesis by simp
    next
      case (Some g')
      with True Cons.prems have "g' = g" by simp
      with Some Cons.IH obtain ws post where
        "cs = ws @ g @ CHR '']'' # post" "list_all isspace ws" "CHR '']'' \<notin> set g"
        by blast
      with True have "c # cs = (c # ws) @ g @ CHR '']'' # post \<and> list_all isspace (c # ws)
          \<and> CHR '']'' \<notin> set g"
        by simp
      then show ?thesis by blast
    qed
  qed
qed

lemma bracket_not_space: "\<not> isspace CHR '']''"
  by (simp add: isspace_def)

lemma lazy_dot_close_line:
  "lazy_dot_close s = Some g \<Longrightarrow> CHR 0x0A \<notin> set g"
proof (induction s arbitrary: g)
  case Nil
  then show ?case by simp
next
  case (Cons c cs)
  show ?case
  proof (cases "c = CHR '']''")
    case True
    with Cons.prems show ?thesis by simp
  next
    case False
    with Cons.prems have nl: "c \<noteq> CHR 0x0A" by (auto split: if_splits)
    from False nl Cons.prems obtain g' where g': "lazy_dot_close cs = Some g'" "g = c # g'"
      by auto
    from Cons.IH [OF g'(1)] nl g'(2) show ?thesis by simp
  qed
qed

lemma lazy_then_greedy:
  "lazy_dot_close s = Some g \<Longrightarrow> \<exists>g'. greedy_space s = Some g'"
  by (cases s) (auto split: option.splits)

lemma greedy_space_head:
  "greedy_space s = Some g \<Longrightarrow> g = [] \<or> \<not> isspace (hd g)"
proof (induction s arbitrary: g)
  case Nil
  then show ?case by simp
next
  case (Cons c cs)
  show ?case
  proof (cases "isspace c")
    case False
    with Cons.prems have l: "lazy_dot_close (c # cs) = Some g" by simp
    show ?thesis
    proof (cases "c = CHR '']''")
      case True
      with l show ?thesis by simp
    next
      case nb: False
      with l obtain g' where "g = c # g'" by (auto split: if_splits)
      with False show ?thesis by simp
    qed
  next
    case True
    show ?thesis
    proof (cases "greedy_space cs")
      case (Some g')
      with True Cons.prems have "g' = g" by simp
      with Some Cons.IH show ?thesis by blast
    next
      case None
      with True Cons.prems have l: "lazy_dot_close (c # cs) = Some g" by simp
      have "c \<noteq> CHR '']''" using True bracket_not_space by auto
      with l obtain g' where "lazy_dot_close cs = Some g'"
        by (auto split: if_splits)
      from lazy_then_greedy [OF this] None show ?thesis by simp
    qed
  qed
qed

lemma lazy_dot_close_complete:
  "CHR 0x0A \<notin> set g \<Longrightarrow> \<exists>g'. lazy_dot_close (g @ CHR '']'' # p) = Some g'"
  by (induction g) auto

lemma greedy_space_complete:
  assumes "list_all isspace ws" and "CHR 0x0A \<notin> set g"
  shows "\<exists>g'. greedy_space (ws @ g @ CHR '']'' # p) = Some g'"
  using assms(1)
proof (induction ws)
  case Nil
  from lazy_dot_close_complete [OF assms(2), of p] obtain g' where
    "lazy_dot_close (g @ CHR '']'' # p) = Some g'" by blast
  from lazy_then_greedy [OF this] show ?case by simp
next
  case (Cons c ws)
  then obtain g' where "greedy_space (ws @ g @ CHR '']'' # p) = Some g'" by auto
  with Cons.prems show ?case by simp
qed

lemma match_at_complete:
  assumes "s = ''[SEARCH:'' @ ws @ g @ '']'' @ p" and "list_all isspace ws"
    and "CHR 0x0A \<notin> set g"
  shows "match_at s \<noteq> None"
proof -
  from assms(1) have t: "take 8 s = ''[SEARCH:''" and d: "drop 8 s = ws @ g @ CHR '']'' # p"
    by simp_all
  from greedy_space_complete [OF assms(2,3), of p] d t show ?thesis
    by (auto simp: match_at_def)
qed

lemma rstrip_split:
  "\<exists>trail. g = rev (dropWhile P (rev g)) @ trail \<and> list_all P trail"
proof -
  have "rev (takeWhile P (rev g) @ dropWhile P (rev g)) = rev (rev g)"
    by (simp only: takeWhile_dropWhile_id)
  then have "g = rev (dropWhile P (rev g)) @ rev (takeWhile P (rev g))"
    by (simp only: rev_append rev_rev_ident)
  moreover have "list_all P (rev (takeWhile P (rev g)))"
    by (simp add: list_all_iff) (meson set_takeWhileD)
  ultimately show ?thesis by blast
qed

lemma rstrip_last:
  "rev (dropWhile P (rev g)) \<noteq> [] \<Longrightarrow> \<not> P (last (rev (dropWhile P (rev g))))"
  by (simp add: last_rev hd_dropWhile)

lemma strip_no_leading:
  assumes "g = [] \<or> \<not> isspace (hd g)"
  shows "\<exists>trail. g = strip g @ trail \<and> list_all isspace trail \<and>
           (strip g \<noteq> [] \<longrightarrow> \<not> isspace (hd (strip g)) \<and> \<not> isspace (last (strip g)))"
proof -
  from assms have d: "dropWhile isspace g = g" by (cases g) auto
  then have s: "strip g = rev (dropWhile isspace (rev g))" by (simp add: strip_def)
  from rstrip_split [of g isspace] obtain trail where
    t: "g = strip g @ trail" "list_all isspace trail" unfolding s by blast
  have "\<not> isspace (hd (strip g)) \<and> \<not> isspace (last (strip g))" if ne: "strip g \<noteq> []"
  proof -
    from ne t(1) have "hd g = hd (strip g)" by (metis hd_append2)
    moreover from ne t(1) have "g \<noteq> []" by auto
    ultimately have "\<not> isspace (hd (strip g))" using assms by simp
    moreover have "\<not> isspace (last (strip g))" using ne rstrip_last [of isspace g] unfolding s by simp
    ultimately show ?thesis by simp
  qed
  with t show ?thesis by blast
qed

lemma greedy_space_line:
  "greedy_space s = Some g \<Longrightarrow> CHR 0x0A \<notin> set g"
proof (induction s arbitrary: g)
  case Nil
  then show ?case by simp
next
  case (Cons c cs)
  show ?case
  proof (cases "isspace c \<and> greedy_space cs \<noteq> None")
    case True
    with Cons.prems have "greedy_space cs = Some g" by auto
    then show ?thesis by (rule Cons.IH)
  next
    case False
    with Cons.prems have "lazy_dot_close (c # cs) = Some g"
      by (auto split: if_splits option.splits)
    then show ?thesis by (rule lazy_dot_close_line)
  qed
qed

lemma match_at_directive:
  assumes "match_at s = Some g"
  shows "\<exists>lead trail post.
           s = ''[SEARCH:'' @ lead @ strip g @ trail @ '']'' @ post \<and>
           list_all isspace lead \<and> list_all isspace trail \<and>
           CHR '']'' \<notin> set (strip g) \<and> CHR 0x0A \<notin> set (strip g @ trail) \<and>
           (strip g \<noteq> [] \<longrightarrow> \<not> isspace (hd (strip g)) \<and> \<not> isspace (last (strip g)))"
proof -
  from assms have tag: "take 8 s = ''[SEARCH:''" and rest: "greedy_space (drop 8 s) = Some g"
    by (auto simp: match_at_def split: if_splits)
  from greedy_space_Some [OF rest] obtain lead post where
    d: "drop 8 s = lead @ g @ CHR '']'' # post" and lead: "list_all isspace lead"
    and g: "CHR '']'' \<notin> set g"
    by blast
  from strip_no_leading [OF greedy_space_head [OF rest]] obtain trail where
    t: "g = strip g @ trail" and trail: "list_all isspace trail"
    and ends: "strip g \<noteq> [] \<longrightarrow> \<not> isspace (hd (strip g)) \<and> \<not> isspace (last (strip g))"
    by blast
  have "take 8 s @ drop 8 s = s" by (rule append_take_drop_id)
  then have "s = ''[SEARCH:'' @ lead @ g @ '']'' @ post" unfolding tag d by simp
  with t have "s = ''[SEARCH:'' @ lead @ strip g @ trail @ '']'' @ post"
    by (metis append.assoc)
  moreover from g t have "CHR '']'' \<notin> set (strip g)" by (metis Un_iff set_append)
  moreover from greedy_space_line [OF rest] t have "CHR 0x0A \<notin> set (strip g @ trail)"
    by simp
  ultimately show ?thesis using lead trail ends by blast
qed

lemma re_search_directive:
  "re_search s = Some g \<Longrightarrow>
     \<exists>pre lead trail post.
        s = pre @ ''[SEARCH:'' @ lead @ strip g @ trail @ '']'' @ post \<and>
        list_all isspace lead \<and> list_all isspace trail \<and>
        CHR '']'' \<notin> set (strip g) \<and> CHR 0x0A \<notin> set (strip g @ trail) \<and>
        (strip g \<noteq> [] \<longrightarrow> \<not> isspace (hd (strip g)) \<and> \<not> isspace (last (strip g))) \<and>
        (\<forall>k<length pre. match_at (drop k s) = None)"
proof (induction s)
  case Nil
  then show ?case by (simp add: match_at_def)
next
  case (Cons c cs)
  show ?case
  proof (cases "match_at (c # cs)")
    case (Some g')
    with Cons.prems have "match_at (c # cs) = Some g" by simp
    from match_at_directive [OF this] obtain lead trail post where
      eq: "c # cs = ''[SEARCH:'' @ lead @ strip g @ trail @ '']'' @ post"
      and rest: "list_all isspace lead" "list_all isspace trail"
      "CHR '']'' \<notin> set (strip g)" "CHR 0x0A \<notin> set (strip g @ trail)"
      "strip g \<noteq> [] \<longrightarrow> \<not> isspace (hd (strip g)) \<and> \<not> isspace (last (strip g))"
      by blast
    from eq have eq': "c # cs = [] @ ''[SEARCH:'' @ lead @ strip g @ trail @ '']'' @ post"
      by (simp only: append_Nil)
    have first: "\<forall>k<length ([]::string). match_at (drop k (c # cs)) = None" by simp
    show ?thesis
      by (rule exI [where x = "[]"], rule exI [where x = lead], rule exI [where x = trail],
          rule exI [where x = post])
         (intro conjI eq' rest first)
  next
    case None
    with Cons.prems have "re_search cs = Some g" by simp
    from Cons.IH [OF this] obtain pre lead trail post where
      cs: "cs = pre @ ''[SEARCH:'' @ lead @ strip g @ trail @ '']'' @ post"
      and rest: "list_all isspace lead" "list_all isspace trail"
      "CHR '']'' \<notin> set (strip g)" "CHR 0x0A \<notin> set (strip g @ trail)"
      "strip g \<noteq> [] \<longrightarrow> \<not> isspace (hd (strip g)) \<and> \<not> isspace (last (strip g))"
      and first: "\<forall>k<length pre. match_at (drop k cs) = None"
      by blast
    have "match_at (drop k (c # cs)) = None" if "k < length (c # pre)" for k
      using that None first by (cases k) simp_all
    then have first': "\<forall>k<length (c # pre). match_at (drop k (c # cs)) = None"
      by (intro allI impI)
    from cs have eq: "c # cs = (c # pre) @ ''[SEARCH:'' @ lead @ strip g @ trail @ '']'' @ post"
      by (simp only: append_Cons)
    show ?thesis
      by (rule exI [where x = "c # pre"], rule exI [where x = lead],
          rule exI [where x = trail], rule exI [where x = post])
         (intro conjI eq rest first')
  qed
qed

lemma directive_of_search:
  assumes "re_search raw = Some g"
    and "WS = {CHR 0x09, CHR 0x0A, CHR 0x0B, CHR 0x0C, CHR 0x0D, CHR 0x1C, CHR 0x1D,
               CHR 0x1E, CHR 0x1F, CHR 0x20, CHR 0x85, CHR 0xA0}"
  shows "\<exists>pre lead trail post.
           raw = pre @ ''[SEARCH:'' @ lead @ strip g @ trail @ '']'' @ post \<and>
           set lead \<subseteq> WS \<and> set trail \<subseteq> WS \<and>
           CHR '']'' \<notin> set (strip g) \<and> CHR 0x0A \<notin> set (strip g @ trail) \<and>
           (strip g \<noteq> [] \<longrightarrow> hd (strip g) \<notin> WS \<and> last (strip g) \<notin> WS) \<and>
           (\<forall>k<length pre.
              \<not> (\<exists>ws b p. drop k raw = ''[SEARCH:'' @ ws @ b @ '']'' @ p \<and>
                    set ws \<subseteq> WS \<and> CHR 0x0A \<notin> set b))"
proof -
  have sp: "isspace c \<longleftrightarrow> c \<in> WS" for c
    unfolding assms(2) isspace_def by simp
  have sps: "list_all isspace ws \<longleftrightarrow> set ws \<subseteq> WS" for ws
    by (induction ws) (simp_all add: sp)
  from re_search_directive [OF assms(1)] obtain pre lead trail post where
    raw: "raw = pre @ ''[SEARCH:'' @ lead @ strip g @ trail @ '']'' @ post"
    and lead: "list_all isspace lead" and trail: "list_all isspace trail"
    and q: "CHR '']'' \<notin> set (strip g)" "CHR 0x0A \<notin> set (strip g @ trail)"
    and ends: "strip g \<noteq> [] \<longrightarrow> \<not> isspace (hd (strip g)) \<and> \<not> isspace (last (strip g))"
    and first: "\<forall>k<length pre. match_at (drop k raw) = None"
    by blast
  have none: "\<forall>k<length pre.
      \<not> (\<exists>ws b p. drop k raw = ''[SEARCH:'' @ ws @ b @ '']'' @ p \<and>
            set ws \<subseteq> WS \<and> CHR 0x0A \<notin> set b)"
  proof (rule allI, rule impI, rule notI)
    fix k
    assume k: "k < length pre"
    assume "\<exists>ws b p. drop k raw = ''[SEARCH:'' @ ws @ b @ '']'' @ p \<and>
                    set ws \<subseteq> WS \<and> CHR 0x0A \<notin> set b"
    then obtain ws b p where m: "drop k raw = ''[SEARCH:'' @ ws @ b @ '']'' @ p"
      and w: "set ws \<subseteq> WS" and b: "CHR 0x0A \<notin> set b"
      by (elim exE conjE)
    from w have sp_ws: "list_all isspace ws" by (simp only: sps)
    have "match_at (drop k raw) \<noteq> None"
      using m sp_ws b by (rule match_at_complete)
    moreover from first k have "match_at (drop k raw) = None" by (simp only:)
    ultimately show False by (rule notE)
  qed
  from lead have lead': "set lead \<subseteq> WS" by (simp only: sps)
  from trail have trail': "set trail \<subseteq> WS" by (simp only: sps)
  from ends have ends': "strip g \<noteq> [] \<longrightarrow> hd (strip g) \<notin> WS \<and> last (strip g) \<notin> WS"
    by (simp only: sp)
  show ?thesis
    by (rule exI [where x = pre], rule exI [where x = lead], rule exI [where x = trail],
        rule exI [where x = post])
       (intro conjI raw lead' trail' q ends' none)
qed

lemma calls_shape:
  "(\<exists>out1. calls (chat_with_memory cf dd inp self w) =
       [LLMCall (memory self @ [user_message inp]) (system self) out1]) \<or>
   (\<exists>toks1 g1 ms1 out2. enable_web_search self \<and> re_search (concat toks1) = Some g1 \<and>
      calls (chat_with_memory cf dd inp self w) =
       [LLMCall (memory self @ [user_message inp]) (system self) (Inr toks1),
        SearchCall (strip g1) 3, LLMCall ms1 (system self) out2]) \<or>
   (\<exists>toks1 g1 ms1 toks2 g2. enable_web_search self \<and> re_search (concat toks1) = Some g1 \<and>
      re_search (concat toks2) = Some g2 \<and>
      calls (chat_with_memory cf dd inp self w) =
       [LLMCall (memory self @ [user_message inp]) (system self) (Inr toks1),
        SearchCall (strip g1) 3, LLMCall ms1 (system self) (Inr toks2),
        SearchCall (strip g2) 3])"
  unfolding chat_with_memory_unrolled Let_def
  by (auto split: prod.splits sum.splits option.splits if_splits)


section \<open>The search tool never raises\<close>

text \<open>
  C7. \<open>search_web\<close> returns a string for every query and every behaviour of the provider,
  and never raises, whatever exception of class \<open>Exception\<close> the provider raises: when
  the provider raises an exception with text \<open>m\<close>, the string is
  "An error occurred during the web search: " followed by \<open>m\<close>; when the provider returns
  no result, it is "No results found for your query."; otherwise it is the blocks of the
  results joined by line feeds, in the provider's order, the block of the result at
  index \<open>i\<close> giving its number \<open>i + 1\<close>, its title, its snippet and its URL, with "N/A"
  for a field the result does not have. On the two results of the test
  \<open>test_search_web_success\<close> that is the text the test expects, and the tenth of ten
  results without fields is rendered as the block numbered 10 with three "N/A".
\<close>

theorem search_web_never_raises:
  "(\<exists>s. fst (search_web ddgs w query num_results) = Inr s) \<and>
   fst (search_web ddgs w query num_results) =
     (case fst (ddgs w query num_results) of
        Inl (Exception m) \<Rightarrow> Inr (''An error occurred during the web search: '' @ m)
      | Inr rs \<Rightarrow>
          (if rs = [] then Inr ''No results found for your query.''
           else Inr (join ''\<newline>''
                  (map (\<lambda>(i, r).
                          ''Result '' @ str_nat (i + 1) @ '':\<newline>'' @
                          ''Title: '' @ (case r ''title'' of None \<Rightarrow> ''N/A'' | Some v \<Rightarrow> v) @ ''\<newline>'' @
                          ''Snippet: '' @ (case r ''body'' of None \<Rightarrow> ''N/A'' | Some v \<Rightarrow> v) @ ''\<newline>'' @
                          ''URL: '' @ (case r ''href'' of None \<Rightarrow> ''N/A'' | Some v \<Rightarrow> v) @ ''\<newline>'')
                       (zip [0..<length rs] rs))))) \<and>
   fst (search_web
          (provider_returns
             [[''title'' \<mapsto> ''Test Title 1'', ''body'' \<mapsto> ''Snippet 1...'',
               ''href'' \<mapsto> ''http://example.com/1''],
              [''title'' \<mapsto> ''Test Title 2'', ''body'' \<mapsto> ''Snippet 2...'',
               ''href'' \<mapsto> ''http://example.com/2'']])
          w ''test query'' 2) =
     Inr (''Result 1:\<newline>Title: Test Title 1\<newline>Snippet: Snippet 1...\<newline>URL: http://example.com/1\<newline>'' @
          ''\<newline>'' @
          ''Result 2:\<newline>Title: Test Title 2\<newline>Snippet: Snippet 2...\<newline>URL: http://example.com/2\<newline>'') \<and>
   map_sum id (drop 396)
     (fst (search_web (provider_returns (replicate 10 Map.empty)) w query num_results)) =
     Inr ''Result 10:\<newline>Title: N/A\<newline>Snippet: N/A\<newline>URL: N/A\<newline>''"
proof -
  have entry: "(\<lambda>(i, r). result_entry i r) =
      (\<lambda>(i, r).
          ''Result '' @ str_nat (i + 1) @ '':\<newline>'' @
          ''Title: '' @ (case r ''title'' of None \<Rightarrow> ''N/A'' | Some v \<Rightarrow> v) @ ''\<newline>'' @
          ''Snippet: '' @ (case r ''body'' of None \<Rightarrow> ''N/A'' | Some v \<Rightarrow> v) @ ''\<newline>'' @
          ''URL: '' @ (case r ''href'' of None \<Rightarrow> ''N/A'' | Some v \<Rightarrow> v) @ ''\<newline>'')"
    by (simp add: result_entry_def dict_get_def fun_eq_iff)
  have general: "(\<exists>s. fst (search_web ddgs w query num_results) = Inr s) \<and>
   fst (search_web ddgs w query num_results) =
     (case fst (ddgs w query num_results) of
        Inl (Exception m) \<Rightarrow> Inr (''An error occurred during the web search: '' @ m)
      | Inr rs \<Rightarrow>
          (if rs = [] then Inr ''No results found for your query.''
           else Inr (join ''\<newline>''
                  (map (\<lambda>(i, r).
                          ''Result '' @ str_nat (i + 1) @ '':\<newline>'' @
                          ''Title: '' @ (case r ''title'' of None \<Rightarrow> ''N/A'' | Some v \<Rightarrow> v) @ ''\<newline>'' @
                          ''Snippet: '' @ (case r ''body'' of None \<Rightarrow> ''N/A'' | Some v \<Rightarrow> v) @ ''\<newline>'' @
                          ''URL: '' @ (case r ''href'' of None \<Rightarrow> ''N/A'' | Some v \<Rightarrow> v) @ ''\<newline>'')
                       (zip [0..<length rs] rs)))))"
    for ddgs :: "'a ddgs" and query num_results
    unfolding search_web_def search_web_try_cases entry
    by (cases "ddgs w query num_results")
       (auto split: sum.splits exn.splits)
  have two: "fst (search_web
          (provider_returns
             [[''title'' \<mapsto> ''Test Title 1'', ''body'' \<mapsto> ''Snippet 1...'',
               ''href'' \<mapsto> ''http://example.com/1''],
              [''title'' \<mapsto> ''Test Title 2'', ''body'' \<mapsto> ''Snippet 2...'',
               ''href'' \<mapsto> ''http://example.com/2'']])
          w ''test query'' 2) =
     Inr (''Result 1:\<newline>Title: Test Title 1\<newline>Snippet: Snippet 1...\<newline>URL: http://example.com/1\<newline>'' @
          ''\<newline>'' @
          ''Result 2:\<newline>Title: Test Title 2\<newline>Snippet: Snippet 2...\<newline>URL: http://example.com/2\<newline>'')"
    unfolding general [THEN conjunct2] by code_simp
  have ten: "map_sum id (drop 396)
     (fst (search_web (provider_returns (replicate 10 Map.empty)) w query num_results)) =
     Inr ''Result 10:\<newline>Title: N/A\<newline>Snippet: N/A\<newline>URL: N/A\<newline>''"
    unfolding general [THEN conjunct2] by code_simp
  note exists = general [of ddgs query num_results, THEN conjunct1]
  note closed_form = general [of ddgs query num_results, THEN conjunct2]
  show ?thesis by (intro conjI exists closed_form two ten)
qed

theorem search_web_never_raises_witness:
  "fst (search_web
          (provider_returns
             [[''title'' \<mapsto> ''Test Title 1'', ''body'' \<mapsto> ''Snippet 1...'',
               ''href'' \<mapsto> ''http://example.com/1''],
              [''title'' \<mapsto> ''Test Title 2'', ''body'' \<mapsto> ''Snippet 2...'',
               ''href'' \<mapsto> ''http://example.com/2'']])
          () ''test query'' 2) =
     Inr (''Result 1:\<newline>Title: Test Title 1\<newline>Snippet: Snippet 1...\<newline>URL: http://example.com/1\<newline>'' @
          ''\<newline>'' @
          ''Result 2:\<newline>Title: Test Title 2\<newline>Snippet: Snippet 2...\<newline>URL: http://example.com/2\<newline>'') \<and>
   fst (search_web (provider_returns [[''title'' \<mapsto> ''Only a title'']]) () ''q'' 3) =
     Inr ''Result 1:\<newline>Title: Only a title\<newline>Snippet: N/A\<newline>URL: N/A\<newline>'' \<and>
   map_sum id (drop 396)
     (fst (search_web (provider_returns (replicate 10 Map.empty)) () ''q'' 3)) =
     Inr ''Result 10:\<newline>Title: N/A\<newline>Snippet: N/A\<newline>URL: N/A\<newline>'' \<and>
   fst (search_web (provider_returns []) () ''q'' 3) = Inr ''No results found for your query.'' \<and>
   fst (search_web (\<lambda>w keywords max_results. (Inl (Exception ''timed out''), w)) () ''q'' 3) =
     Inr ''An error occurred during the web search: timed out''"
proof -
  let ?two = "provider_returns
             [[''title'' \<mapsto> ''Test Title 1'', ''body'' \<mapsto> ''Snippet 1...'',
               ''href'' \<mapsto> ''http://example.com/1''],
              [''title'' \<mapsto> ''Test Title 2'', ''body'' \<mapsto> ''Snippet 2...'',
               ''href'' \<mapsto> ''http://example.com/2'']] :: unit ddgs"
  let ?one = "provider_returns [[''title'' \<mapsto> ''Only a title'']] :: unit ddgs"
  let ?ten = "provider_returns (replicate 10 Map.empty) :: unit ddgs"
  let ?none = "provider_returns [] :: unit ddgs"
  let ?err = "(\<lambda>w keywords max_results. (Inl (Exception ''timed out''), w)) :: unit ddgs"
  note a = search_web_never_raises [of ?two "()" "''test query''" 2, THEN conjunct2, THEN conjunct1]
  note b = search_web_never_raises [of ?one "()" "''q''" 3, THEN conjunct2, THEN conjunct1]
  note c = search_web_never_raises [of ?ten "()" "''q''" 3, THEN conjunct2, THEN conjunct1]
  note d = search_web_never_raises [of ?none "()" "''q''" 3, THEN conjunct2, THEN conjunct1]
  note e = search_web_never_raises [of ?err "()" "''q''" 3, THEN conjunct2, THEN conjunct1]
  show ?thesis
    unfolding a b c d e by code_simp
qed

section \<open>Interrupt handling\<close>

text \<open>
  C8. \<open>handle_interrupt\<close> is idempotent: for every agent state (memory, flag and
  interrupt policy) and every two heard texts, a second call made right after a first one,
  with no \<open>reset_interrupt\<close> in between, leaves the agent, and so its memory, exactly as
  the first call left it.
\<close>

theorem handle_interrupt_idempotent:
  "handle_interrupt heard2 (handle_interrupt heard1 self) = handle_interrupt heard1 self \<and>
   memory (handle_interrupt heard1 (handle_interrupt heard1 self)) =
     memory (handle_interrupt heard1 self)"
proof -
  have flag: "interrupt_handled (handle_interrupt heard1 self)"
    by (simp add: handle_interrupt_def Let_def)
  have "handle_interrupt h (handle_interrupt heard1 self) = handle_interrupt heard1 self" for h
    using flag by (subst handle_interrupt_def) simp
  then show ?thesis by simp
qed

section \<open>Loading the memory from a history\<close>

text \<open>
  C9. For every history and every agent, \<open>set_memory_from_history\<close> replaces the memory
  (whatever it held) by the system message, holding the agent's system prompt, followed
  by one message per history record in the history's order: role "user" for a record of
  role "human" and "assistant" for any other, the content carried over unchanged. No
  other field of the agent changes.
\<close>

theorem set_memory_from_history_replaces:
  "set_memory_from_history messages self =
     self\<lparr>memory :=
       \<lparr>role = ''system'', content = Str (system self), name = None, avatar = None\<rparr> #
       map (\<lambda>m. \<lparr>role = (if hist_role m = ''human'' then ''user'' else ''assistant''),
                  content = Str (hist_content m), name = None, avatar = None\<rparr>)
           messages\<rparr>"
proof -
  have entry: "history_entry =
      (\<lambda>m. \<lparr>role = (if hist_role m = ''human'' then ''user'' else ''assistant''),
             content = Str (hist_content m), name = None, avatar = None\<rparr>)"
    by (simp add: history_entry_def msg_def fun_eq_iff)
  show ?thesis
    by (simp add: set_memory_from_history_def Let_def foldl_history msg_def entry)
qed

section \<open>Turns with the search disabled\<close>

text \<open>
  C3. In a turn of an agent whose \<open>enable_web_search\<close> is false, no search call is made,
  whatever the model does; and when the model call returns its tokens, the turn ends
  without an exception after that single model call, the tokens yielded are the
  characters of the raw model output (their concatenation is the output, character for
  character), and the assistant message appended to the memory after the user message
  holds that same output. This holds also for an output that contains a search directive.
\<close>

theorem search_disabled_passthrough:
  assumes "\<not> enable_web_search self"
  shows "filter is_search (calls (chat_with_memory cf dd inp self w)) = [] \<and>
    (\<forall>toks w1. cf w (memory self @ [user_message inp]) (system self) = (Inr toks, w1) \<longrightarrow>
       raised (chat_with_memory cf dd inp self w) = None \<and>
       yielded (chat_with_memory cf dd inp self w) = map (\<lambda>c. [c]) (concat toks) \<and>
       concat (yielded (chat_with_memory cf dd inp self w)) = concat toks \<and>
       memory (agent_after (chat_with_memory cf dd inp self w)) =
         memory self @ [msg ''user'' (Str (to_text_prompt inp)),
                        msg ''assistant'' (Str (concat toks))] \<and>
       calls (chat_with_memory cf dd inp self w) =
         [LLMCall (memory self @ [user_message inp]) (system self) (Inr toks)])"
proof -
  have chars: "concat (map (\<lambda>c. [c]) s) = s" for s :: string
    by (induction s) simp_all
  show ?thesis
    using assms
    by (auto simp: chat_with_memory_unrolled Let_def chars split: prod.splits sum.splits)
qed

theorem search_disabled_passthrough_witness:
  "\<not> enable_web_search (init ''You are a helpful assistant.'' ''user'' False) \<and>
   filter is_search
     (calls (chat_with_memory
        (streams ''I should search for this. [SEARCH: Large Language Models]'')
        (provider_returns []) (text_input ''Tell me about LLMs'')
        (init ''You are a helpful assistant.'' ''user'' False) ())) = [] \<and>
   concat (yielded (chat_with_memory
        (streams ''I should search for this. [SEARCH: Large Language Models]'')
        (provider_returns []) (text_input ''Tell me about LLMs'')
        (init ''You are a helpful assistant.'' ''user'' False) ())) =
     ''I should search for this. [SEARCH: Large Language Models]''"
proof -
  let ?a = "init ''You are a helpful assistant.'' ''user'' False"
  let ?out = "''I should search for this. [SEARCH: Large Language Models]''"
  let ?cf = "streams ?out :: unit chat_func"
  let ?dd = "provider_returns [] :: unit ddgs"
  let ?inp = "text_input ''Tell me about LLMs''"
  have h: "\<not> enable_web_search ?a" by (simp add: init_def set_system_def)
  have c: "?cf () (memory ?a @ [user_message ?inp]) (system ?a) = (Inr (map (\<lambda>c. [c]) ?out), ())"
    by (simp add: streams_def)
  have s: "concat (map (\<lambda>c. [c]) ?out) = ?out" by simp
  from search_disabled_passthrough [OF h, of ?cf ?dd ?inp "()"] c s
  show ?thesis using h by simp
qed

section \<open>Search calls of a turn\<close>

text \<open>
  C4. In a turn of an agent with the search enabled, at most two search calls are made;
  every search call has the result count 3 and comes right after a model call that
  returned (so no iteration makes two). Its query \<open>q\<close> is read off that model output as
  follows: the output is some text \<open>pre\<close>, the tag \<open>[SEARCH:\<close>, whitespace, \<open>q\<close>,
  whitespace, and the closing bracket; \<open>q\<close> holds no closing bracket, so the bracket is
  the first one after the tag; \<open>q\<close> neither starts nor ends with whitespace, so it is
  the text between tag and bracket trimmed; no line feed stands in \<open>q\<close> or after it
  before the bracket; and the tag is the leftmost at which the pattern (tag, whitespace,
  text without line feed, closing bracket) matches. Whitespace is what \<open>str.isspace\<close>
  accepts among the code points below 256.
\<close>

theorem search_calls_per_turn:
  assumes "enable_web_search self"
  shows "length (filter is_search (calls (chat_with_memory cf dd inp self w))) \<le> 2 \<and>
    (\<forall>i<length (calls (chat_with_memory cf dd inp self w)). \<forall>q n.
        calls (chat_with_memory cf dd inp self w) ! i = SearchCall q n \<longrightarrow>
        n = 3 \<and> 0 < i \<and>
        (\<exists>ms sy toks.
            calls (chat_with_memory cf dd inp self w) ! (i - 1) = LLMCall ms sy (Inr toks) \<and>
            (\<exists>pre lead trail post.
               concat toks = pre @ ''[SEARCH:'' @ lead @ q @ trail @ '']'' @ post \<and>
               set lead \<subseteq> {CHR 0x09, CHR 0x0A, CHR 0x0B, CHR 0x0C, CHR 0x0D, CHR 0x1C,
                            CHR 0x1D, CHR 0x1E, CHR 0x1F, CHR 0x20, CHR 0x85, CHR 0xA0} \<and>
               set trail \<subseteq> {CHR 0x09, CHR 0x0A, CHR 0x0B, CHR 0x0C, CHR 0x0D, CHR 0x1C,
                             CHR 0x1D, CHR 0x1E, CHR 0x1F, CHR 0x20, CHR 0x85, CHR 0xA0} \<and>
               CHR '']'' \<notin> set q \<and> CHR 0x0A \<notin> set (q @ trail) \<and>
               (q \<noteq> [] \<longrightarrow>
                  hd q \<notin> {CHR 0x09, CHR 0x0A, CHR 0x0B, CHR 0x0C, CHR 0x0D, CHR 0x1C,
                           CHR 0x1D, CHR 0x1E, CHR 0x1F, CHR 0x20, CHR 0x85, CHR 0xA0} \<and>
                  last q \<notin> {CHR 0x09, CHR 0x0A, CHR 0x0B, CHR 0x0C, CHR 0x0D, CHR 0x1C,
                             CHR 0x1D, CHR 0x1E, CHR 0x1F, CHR 0x20, CHR 0x85, CHR 0xA0}) \<and>
               (\<forall>k<length pre.
                  \<not> (\<exists>ws b p.
                        drop k (concat toks) = ''[SEARCH:'' @ ws @ b @ '']'' @ p \<and>
                        set ws \<subseteq> {CHR 0x09, CHR 0x0A, CHR 0x0B, CHR 0x0C, CHR 0x0D, CHR 0x1C,
                                   CHR 0x1D, CHR 0x1E, CHR 0x1F, CHR 0x20, CHR 0x85, CHR 0xA0} \<and>
                        CHR 0x0A \<notin> set b)))))"
proof -
  let ?cs = "calls (chat_with_memory cf dd inp self w)"
  let ?ms0 = "memory self @ [user_message inp]"
  let ?sys = "system self"
  define WS where "WS = {CHR 0x09, CHR 0x0A, CHR 0x0B, CHR 0x0C, CHR 0x0D, CHR 0x1C,
                         CHR 0x1D, CHR 0x1E, CHR 0x1F, CHR 0x20, CHR 0x85, CHR 0xA0}"
  define D where "D raw q \<longleftrightarrow>
    (\<exists>pre lead trail post.
       raw = pre @ ''[SEARCH:'' @ lead @ q @ trail @ '']'' @ post \<and>
       set lead \<subseteq> WS \<and> set trail \<subseteq> WS \<and>
       CHR '']'' \<notin> set q \<and> CHR 0x0A \<notin> set (q @ trail) \<and>
       (q \<noteq> [] \<longrightarrow> hd q \<notin> WS \<and> last q \<notin> WS) \<and>
       (\<forall>k<length pre.
          \<not> (\<exists>ws b p. drop k raw = ''[SEARCH:'' @ ws @ b @ '']'' @ p \<and>
                set ws \<subseteq> WS \<and> CHR 0x0A \<notin> set b)))" for raw q
  define E where "E cs \<longleftrightarrow>
    (\<forall>i<length cs. \<forall>q n. cs ! i = SearchCall q n \<longrightarrow>
        n = 3 \<and> 0 < i \<and>
        (\<exists>ms sy toks. cs ! (i - 1) = LLMCall ms sy (Inr toks) \<and> D (concat toks) q))" for cs
  have dir: "D raw (strip g)" if "re_search raw = Some g" for raw g
    unfolding D_def using that WS_def by (rule directive_of_search)
  from calls_shape [of cf dd inp self w]
  consider (one) out1 where "?cs = [LLMCall ?ms0 ?sys out1]"
    | (two) toks1 g1 ms1 out2 where "re_search (concat toks1) = Some g1"
        "?cs = [LLMCall ?ms0 ?sys (Inr toks1), SearchCall (strip g1) 3, LLMCall ms1 ?sys out2]"
    | (three) toks1 g1 ms1 toks2 g2 where "re_search (concat toks1) = Some g1"
        "re_search (concat toks2) = Some g2"
        "?cs = [LLMCall ?ms0 ?sys (Inr toks1), SearchCall (strip g1) 3,
                LLMCall ms1 ?sys (Inr toks2), SearchCall (strip g2) 3]"
    by blast
  then have "length (filter is_search ?cs) \<le> 2 \<and> E ?cs"
  proof cases
    case one
    then show ?thesis by (simp add: E_def)
  next
    case two
    from dir [OF two(1)] show ?thesis
      unfolding two(2) E_def by (simp add: All_less_Suc numeral_3_eq_3)
  next
    case three
    from dir [OF three(1)] dir [OF three(2)] show ?thesis
      unfolding three(3) E_def by (simp add: All_less_Suc numeral_3_eq_3)
  qed
  then show ?thesis
    unfolding E_def D_def WS_def .
qed

theorem search_calls_per_turn_witness:
  "enable_web_search (init ''You are a helpful assistant.'' ''user'' True) \<and>
   calls (chat_with_memory
      (two_step (''Wait. [search: no] [SEARCH:\<newline> broken\<newline>] [SEARCH: '' @ [CHR 0xA0] @
                 '' latest AI news '' @ [CHR 0x09, CHR 0xA0] @ ''] and [SEARCH: other]'')
                ''AI is advancing rapidly according to recent news.'')
      (provider_returns [[''title'' \<mapsto> ''AI is advancing rapidly.'']])
      (text_input ''What is the latest news on AI?'')
      (init ''You are a helpful assistant.'' ''user'' True) 0) ! 1 =
     SearchCall ''latest AI news'' 3 \<and>
   length (filter is_search (calls (chat_with_memory
      (two_step (''Wait. [search: no] [SEARCH:\<newline> broken\<newline>] [SEARCH: '' @ [CHR 0xA0] @
                 '' latest AI news '' @ [CHR 0x09, CHR 0xA0] @ ''] and [SEARCH: other]'')
                ''AI is advancing rapidly according to recent news.'')
      (provider_returns [[''title'' \<mapsto> ''AI is advancing rapidly.'']])
      (text_input ''What is the latest news on AI?'')
      (init ''You are a helpful assistant.'' ''user'' True) 0))) \<le> 2 \<and>
   (\<exists>ms sy toks pre lead trail post.
      calls (chat_with_memory
        (two_step (''Wait. [search: no] [SEARCH:\<newline> broken\<newline>] [SEARCH: '' @ [CHR 0xA0] @
                   '' latest AI news '' @ [CHR 0x09, CHR 0xA0] @ ''] and [SEARCH: other]'')
                  ''AI is advancing rapidly according to recent news.'')
        (provider_returns [[''title'' \<mapsto> ''AI is advancing rapidly.'']])
        (text_input ''What is the latest news on AI?'')
        (init ''You are a helpful assistant.'' ''user'' True) 0) ! 0 = LLMCall ms sy (Inr toks) \<and>
      concat toks = pre @ ''[SEARCH:'' @ lead @ ''latest AI news'' @ trail @ '']'' @ post \<and>
      CHR 0x0A \<notin> set trail)"
proof -
  let ?a = "init ''You are a helpful assistant.'' ''user'' True"
  let ?cf = "two_step (''Wait. [search: no] [SEARCH:\<newline> broken\<newline>] [SEARCH: '' @ [CHR 0xA0] @
                 '' latest AI news '' @ [CHR 0x09, CHR 0xA0] @ ''] and [SEARCH: other]'')
                ''AI is advancing rapidly according to recent news.''"
  let ?dd = "provider_returns [[''title'' \<mapsto> ''AI is advancing rapidly.'']] :: nat ddgs"
  let ?inp = "text_input ''What is the latest news on AI?''"
  let ?cs = "calls (chat_with_memory ?cf ?dd ?inp ?a 0)"
  have h: "enable_web_search ?a" by code_simp
  have len: "1 < length ?cs" by code_simp
  have ev: "?cs ! 1 = SearchCall ''latest AI news'' 3" by code_simp
  note t = search_calls_per_turn [OF h, of ?cf ?dd ?inp 0]
  from t have bound: "length (filter is_search ?cs) \<le> 2" by (rule conjunct1)
  note each = t [THEN conjunct2, rule_format, OF len ev]
  from each have "\<exists>ms sy toks pre lead trail post.
      ?cs ! (1 - 1) = LLMCall ms sy (Inr toks) \<and>
      concat toks = pre @ ''[SEARCH:'' @ lead @ ''latest AI news'' @ trail @ '']'' @ post \<and>
      CHR 0x0A \<notin> set trail"
    by (elim exE conjE) (intro exI conjI, assumption, assumption, simp)
  then have "\<exists>ms sy toks pre lead trail post.
      ?cs ! 0 = LLMCall ms sy (Inr toks) \<and>
      concat toks = pre @ ''[SEARCH:'' @ lead @ ''latest AI news'' @ trail @ '']'' @ post \<and>
      CHR 0x0A \<notin> set trail"
    by (simp only: diff_self_eq_0)
  with h ev bound show ?thesis by (intro conjI)
qed

section \<open>A turn with one search round\<close>

text \<open>
  C5. In a turn with the search enabled whose first model output holds a directive and
  whose second model output, produced from the messages extended by the first attempt
  and the search results, holds none: the memory after the turn is the memory before it
  followed by the user message and one assistant message holding the second output, and
  nothing else. The first attempt and the message carrying the search results are in
  the list passed to the second model call only.
\<close>

theorem search_round_memory:
  assumes "enable_web_search self"
    and "cf w (memory self @ [user_message inp]) (system self) = (Inr toks1, w1)"
    and "re_search (concat toks1) = Some g1"
    and "search_web dd w1 (strip g1) 3 = (Inr res1, w2)"
    and "cf w2 (memory self @ [user_message inp] @
                 [msg ''assistant'' (Str (concat toks1)),
                  msg ''user'' (Str (search_context_message (strip g1) res1))])
            (system self) = (Inr toks2, w3)"
    and "re_search (concat toks2) = None"
  shows "memory (agent_after (chat_with_memory cf dd inp self w)) =
           memory self @ [msg ''user'' (Str (to_text_prompt inp)),
                          msg ''assistant'' (Str (concat toks2))] \<and>
         yielded (chat_with_memory cf dd inp self w) = map (\<lambda>c. [c]) (concat toks2) \<and>
         raised (chat_with_memory cf dd inp self w) = None \<and>
         calls (chat_with_memory cf dd inp self w) =
           [LLMCall (memory self @ [user_message inp]) (system self) (Inr toks1),
            SearchCall (strip g1) 3,
            LLMCall (memory self @ [user_message inp] @
                       [msg ''assistant'' (Str (concat toks1)),
                        msg ''user'' (Str (search_context_message (strip g1) res1))])
                    (system self) (Inr toks2)]"
proof -
  from assms(4) have w2: "snd (dd w1 (strip g1) 3) = w2"
    by (auto dest: search_web_world)
  from assms(4) have res1: "projr (fst (search_web dd w1 (strip g1) 3)) = res1"
    by simp
  show ?thesis
    using assms(1,2,3,5,6)
    by (simp add: chat_with_memory_unrolled Let_def w2 res1)
qed

theorem search_round_memory_witness:
  "enable_web_search (init ''You are a helpful assistant.'' ''system'' True) \<and>
   re_search ''I need to find that out. [SEARCH: latest AI news]'' = Some ''latest AI news'' \<and>
   re_search ''AI is advancing rapidly according to recent news.'' = None \<and>
   memory (agent_after (chat_with_memory
      (two_step ''I need to find that out. [SEARCH: latest AI news]''
                ''AI is advancing rapidly according to recent news.'')
      (provider_returns [[''title'' \<mapsto> ''AI is advancing rapidly.'']])
      (text_input ''What is the latest news on AI?'')
      (init ''You are a helpful assistant.'' ''system'' True) 0)) =
     [msg ''user'' (Str ''What is the latest news on AI?''),
      msg ''assistant'' (Str ''AI is advancing rapidly according to recent news.'')]"
proof -
  let ?first = "''I need to find that out. [SEARCH: latest AI news]''"
  let ?final = "''AI is advancing rapidly according to recent news.''"
  let ?cf = "two_step ?first ?final"
  let ?dd = "provider_returns [[''title'' \<mapsto> ''AI is advancing rapidly.'']] :: nat ddgs"
  let ?inp = "text_input ''What is the latest news on AI?''"
  let ?a = "init ''You are a helpful assistant.'' ''system'' True"
  let ?res = "''Result 1:\<newline>Title: AI is advancing rapidly.\<newline>Snippet: N/A\<newline>URL: N/A\<newline>''"
  have h1: "enable_web_search ?a" by code_simp
  have h2: "?cf 0 (memory ?a @ [user_message ?inp]) (system ?a) = (Inr (map (\<lambda>c. [c]) ?first), 1)"
    by (simp add: two_step_def)
  have h3: "re_search (concat (map (\<lambda>c. [c]) ?first)) = Some ''latest AI news''"
    by code_simp
  have q: "strip ''latest AI news'' = ''latest AI news''" by code_simp
  have h4: "search_web ?dd 1 (strip ''latest AI news'') 3 = (Inr ?res, 1)"
    by code_simp
  have h5: "?cf 1 (memory ?a @ [user_message ?inp] @
                 [msg ''assistant'' (Str (concat (map (\<lambda>c. [c]) ?first))),
                  msg ''user'' (Str (search_context_message (strip ''latest AI news'') ?res))])
            (system ?a) = (Inr (map (\<lambda>c. [c]) ?final), 2)"
    by (simp add: two_step_def)
  have h6: "re_search (concat (map (\<lambda>c. [c]) ?final)) = None"
    by code_simp
  have m: "memory ?a = []" by code_simp
  have p: "to_text_prompt ?inp = ''What is the latest news on AI?''" by code_simp
  have f: "concat (map (\<lambda>c. [c]) ?final) = ?final" by simp
  from search_round_memory [where cf = ?cf and dd = ?dd and self = ?a and inp = ?inp and w = 0,
      OF h1 h2 h3 h4 h5 h6]
  have "memory (agent_after (chat_with_memory ?cf ?dd ?inp ?a 0)) =
      [msg ''user'' (Str ''What is the latest news on AI?''), msg ''assistant'' (Str ?final)]"
    unfolding m p f by simp
  moreover have "re_search ?first = Some ''latest AI news''" by code_simp
  moreover have "re_search ?final = None" by code_simp
  ultimately show ?thesis using h1 by simp
qed

section \<open>A failing model call\<close>

text \<open>
  C6. If the first model call of a turn raises, the turn raises that same exception
  after that single call. If the first call returns an output with a directive (search
  enabled) and the second model call, made after the search, raises, the turn raises that
  exception after exactly those three calls. In both cases nothing is yielded, no call
  is repeated, and the agent is as it was before the turn except that the user message
  has been appended to the memory: no assistant message was appended. These are the only
  two iterations a turn has.
\<close>

theorem model_failure_propagates:
  "(cf w (memory self @ [user_message inp]) (system self) = (Inl e, w1) \<longrightarrow>
      chat_with_memory cf dd inp self w =
        \<lparr>raised = Some e, yielded = [],
         agent_after = self\<lparr>memory := memory self @ [msg ''user'' (Str (to_text_prompt inp))]\<rparr>,
         world_after = w1,
         calls = [LLMCall (memory self @ [user_message inp]) (system self) (Inl e)]\<rparr>) \<and>
   (enable_web_search self \<and>
    cf w (memory self @ [user_message inp]) (system self) = (Inr toks1, w1) \<and>
    re_search (concat toks1) = Some g1 \<and>
    search_web dd w1 (strip g1) 3 = (Inr res1, w2) \<and>
    cf w2 (memory self @ [user_message inp] @
             [msg ''assistant'' (Str (concat toks1)),
              msg ''user'' (Str (search_context_message (strip g1) res1))])
       (system self) = (Inl e, w3) \<longrightarrow>
      chat_with_memory cf dd inp self w =
        \<lparr>raised = Some e, yielded = [],
         agent_after = self\<lparr>memory := memory self @ [msg ''user'' (Str (to_text_prompt inp))]\<rparr>,
         world_after = w3,
         calls = [LLMCall (memory self @ [user_message inp]) (system self) (Inr toks1),
                  SearchCall (strip g1) 3,
                  LLMCall (memory self @ [user_message inp] @
                             [msg ''assistant'' (Str (concat toks1)),
                              msg ''user'' (Str (search_context_message (strip g1) res1))])
                          (system self) (Inl e)]\<rparr>)"
proof (intro conjI impI)
  assume "cf w (memory self @ [user_message inp]) (system self) = (Inl e, w1)"
  then show "chat_with_memory cf dd inp self w =
        \<lparr>raised = Some e, yielded = [],
         agent_after = self\<lparr>memory := memory self @ [msg ''user'' (Str (to_text_prompt inp))]\<rparr>,
         world_after = w1,
         calls = [LLMCall (memory self @ [user_message inp]) (system self) (Inl e)]\<rparr>"
    by (simp add: chat_with_memory_unrolled Let_def)
next
  assume a: "enable_web_search self \<and>
    cf w (memory self @ [user_message inp]) (system self) = (Inr toks1, w1) \<and>
    re_search (concat toks1) = Some g1 \<and>
    search_web dd w1 (strip g1) 3 = (Inr res1, w2) \<and>
    cf w2 (memory self @ [user_message inp] @
             [msg ''assistant'' (Str (concat toks1)),
              msg ''user'' (Str (search_context_message (strip g1) res1))])
       (system self) = (Inl e, w3)"
  then have sw: "search_web dd w1 (strip g1) 3 = (Inr res1, w2)" by simp
  then have w2: "snd (dd w1 (strip g1) 3) = w2" by (auto dest: search_web_world)
  from a show "chat_with_memory cf dd inp self w =
        \<lparr>raised = Some e, yielded = [],
         agent_after = self\<lparr>memory := memory self @ [msg ''user'' (Str (to_text_prompt inp))]\<rparr>,
         world_after = w3,
         calls = [LLMCall (memory self @ [user_message inp]) (system self) (Inr toks1),
                  SearchCall (strip g1) 3,
                  LLMCall (memory self @ [user_message inp] @
                             [msg ''assistant'' (Str (concat toks1)),
                              msg ''user'' (Str (search_context_message (strip g1) res1))])
                          (system self) (Inl e)]\<rparr>"
    by (simp add: chat_with_memory_unrolled Let_def w2)
qed

theorem model_failure_propagates_witness:
  "raised (chat_with_memory (fails ''model unavailable'') (provider_returns [])
      (text_input ''Hello, world!'') (init ''You are a helpful assistant.'' ''user'' True) ()) =
     Some (Exception ''model unavailable'') \<and>
   memory (agent_after (chat_with_memory (fails ''model unavailable'') (provider_returns [])
      (text_input ''Hello, world!'') (init ''You are a helpful assistant.'' ''user'' True) ())) =
     [msg ''user'' (Str ''Hello, world!'')] \<and>
   length (calls (chat_with_memory (fails ''model unavailable'') (provider_returns [])
      (text_input ''Hello, world!'') (init ''You are a helpful assistant.'' ''user'' True) ())) = 1 \<and>
   raised (chat_with_memory
      (search_then_fail ''Let me search. [SEARCH: failing query]'' ''model unavailable'')
      (provider_returns []) (text_input ''Search for something that will fail.'')
      (init ''You are a helpful assistant.'' ''user'' True) 0) =
     Some (Exception ''model unavailable'') \<and>
   memory (agent_after (chat_with_memory
      (search_then_fail ''Let me search. [SEARCH: failing query]'' ''model unavailable'')
      (provider_returns []) (text_input ''Search for something that will fail.'')
      (init ''You are a helpful assistant.'' ''user'' True) 0)) =
     [msg ''user'' (Str ''Search for something that will fail.'')] \<and>
   length (calls (chat_with_memory
      (search_then_fail ''Let me search. [SEARCH: failing query]'' ''model unavailable'')
      (provider_returns []) (text_input ''Search for something that will fail.'')
      (init ''You are a helpful assistant.'' ''user'' True) 0)) = 3"
proof -
  let ?a = "init ''You are a helpful assistant.'' ''user'' True"
  let ?e = "Exception ''model unavailable''"
  let ?cf1 = "fails ''model unavailable'' :: unit chat_func"
  let ?dd1 = "provider_returns [] :: unit ddgs"
  let ?inp1 = "text_input ''Hello, world!''"
  let ?first = "''Let me search. [SEARCH: failing query]''"
  let ?cf2 = "search_then_fail ?first ''model unavailable''"
  let ?dd2 = "provider_returns [] :: nat ddgs"
  let ?inp2 = "text_input ''Search for something that will fail.''"
  let ?res = "''No results found for your query.''"
  have m: "memory ?a = []" by code_simp
  have p1: "to_text_prompt ?inp1 = ''Hello, world!''" by code_simp
  have p2: "to_text_prompt ?inp2 = ''Search for something that will fail.''" by code_simp
  have h1: "?cf1 () (memory ?a @ [user_message ?inp1]) (system ?a) = (Inl ?e, ())"
    by (simp add: fails_def)
  note first_call = model_failure_propagates
    [where cf = ?cf1 and dd = ?dd1 and inp = ?inp1 and self = ?a and w = "()" and e = ?e
       and ?w1.0 = "()", THEN conjunct1, rule_format, OF h1]
  have r1: "raised (chat_with_memory ?cf1 ?dd1 ?inp1 ?a ()) = Some ?e \<and>
      memory (agent_after (chat_with_memory ?cf1 ?dd1 ?inp1 ?a ())) =
        [msg ''user'' (Str ''Hello, world!'')] \<and>
      length (calls (chat_with_memory ?cf1 ?dd1 ?inp1 ?a ())) = 1"
    unfolding first_call by (simp add: m p1)
  have h2: "enable_web_search ?a \<and>
      ?cf2 0 (memory ?a @ [user_message ?inp2]) (system ?a) = (Inr (map (\<lambda>c. [c]) ?first), 1) \<and>
      re_search (concat (map (\<lambda>c. [c]) ?first)) = Some ''failing query'' \<and>
      search_web ?dd2 1 (strip ''failing query'') 3 = (Inr ?res, 1) \<and>
      ?cf2 1 (memory ?a @ [user_message ?inp2] @
               [msg ''assistant'' (Str (concat (map (\<lambda>c. [c]) ?first))),
                msg ''user'' (Str (search_context_message (strip ''failing query'') ?res))])
         (system ?a) = (Inl ?e, 2)"
  proof (intro conjI)
    show "enable_web_search ?a" by code_simp
    show "?cf2 0 (memory ?a @ [user_message ?inp2]) (system ?a) =
        (Inr (map (\<lambda>c. [c]) ?first), 1)"
      by (simp add: search_then_fail_def)
    show "re_search (concat (map (\<lambda>c. [c]) ?first)) = Some ''failing query''" by code_simp
    show "search_web ?dd2 1 (strip ''failing query'') 3 = (Inr ?res, 1)" by code_simp
    show "?cf2 1 (memory ?a @ [user_message ?inp2] @
               [msg ''assistant'' (Str (concat (map (\<lambda>c. [c]) ?first))),
                msg ''user'' (Str (search_context_message (strip ''failing query'') ?res))])
         (system ?a) = (Inl ?e, 2)"
      by (simp add: search_then_fail_def)
  qed
  note second_call = model_failure_propagates
    [where cf = ?cf2 and dd = ?dd2 and inp = ?inp2 and self = ?a and w = 0 and e = ?e
       and ?w1.0 = 1 and ?toks1.0 = "map (\<lambda>c. [c]) ?first" and ?g1.0 = "''failing query''"
       and ?res1.0 = ?res and ?w2.0 = 1 and ?w3.0 = 2,
     THEN conjunct2, rule_format, OF h2]
  have r2: "raised (chat_with_memory ?cf2 ?dd2 ?inp2 ?a 0) = Some ?e \<and>
      memory (agent_after (chat_with_memory ?cf2 ?dd2 ?inp2 ?a 0)) =
        [msg ''user'' (Str ''Search for something that will fail.'')] \<and>
      length (calls (chat_with_memory ?cf2 ?dd2 ?inp2 ?a 0)) = 3"
    unfolding second_call by (simp add: m p2)
  from r1 r2 show ?thesis by (simp only: simp_thms)
qed

section \<open>The system prompt under the interrupt method\<close>



section \<open>The ceiling reached with a directive in the last output\<close>

text \<open>
  C1. The turn of the loop-limit test, on the code as written: the search is enabled and
  the model answers every call with a text that ends in a directive. The second
  iteration, too, takes the search branch, so two searches are made, the loop ends by
  its condition, no token is yielded, and the assistant message stored in the memory
  has the empty content, not the model's last output.
\<close>

theorem ceiling_with_directive_finalizes_empty:
  "yielded (chat_with_memory (streams ''Let me search again. [SEARCH: something else]'')
      (provider_returns [[''title'' \<mapsto> ''found something'']])
      (text_input ''Keep searching for stuff.'')
      (init ''You are a helpful assistant.'' ''user'' True) ()) = [] \<and>
   memory (agent_after (chat_with_memory (streams ''Let me search again. [SEARCH: something else]'')
      (provider_returns [[''title'' \<mapsto> ''found something'']])
      (text_input ''Keep searching for stuff.'')
      (init ''You are a helpful assistant.'' ''user'' True) ())) =
     [msg ''user'' (Str ''Keep searching for stuff.''), msg ''assistant'' (Str [])] \<and>
   filter is_search (calls (chat_with_memory (streams ''Let me search again. [SEARCH: something else]'')
      (provider_returns [[''title'' \<mapsto> ''found something'']])
      (text_input ''Keep searching for stuff.'')
      (init ''You are a helpful assistant.'' ''user'' True) ())) =
     [SearchCall ''something else'' 3, SearchCall ''something else'' 3]"
  by code_simp

section \<open>The memory of a fresh agent\<close>

text \<open>
  C2. On the code as written, \<open>set_system\<close> leaves the memory as it is, a freshly
  constructed agent has an empty memory, and after the one turn of the echo test (search
  disabled) the memory holds two messages, the user's and the assistant's, with no
  system message before them.
\<close>

theorem fresh_agent_memory_has_no_system_message:
  "memory (set_system sys self) = memory self \<and>
   memory (init ''You are a helpful assistant.'' ''user'' False) = [] \<and>
   memory (agent_after (chat_with_memory (streams ''Echo: Hello, world!'') (provider_returns [])
      (text_input ''Hello, world!'')
      (init ''You are a helpful assistant.'' ''user'' False) ())) =
     [msg ''user'' (Str ''Hello, world!''), msg ''assistant'' (Str ''Echo: Hello, world!'')]"
proof -
  have "memory (set_system sys self) = memory self"
    by (simp add: set_system_def Let_def)
  moreover have "memory (init ''You are a helpful assistant.'' ''user'' False) = []"
    by code_simp
  moreover have "memory (agent_after (chat_with_memory (streams ''Echo: Hello, world!'')
      (provider_returns []) (text_input ''Hello, world!'')
      (init ''You are a helpful assistant.'' ''user'' False) ())) =
     [msg ''user'' (Str ''Hello, world!''), msg ''assistant'' (Str ''Echo: Hello, world!'')]"
    by code_simp
  ultimately show ?thesis by simp
qed

end
